theory Spec2Isabelle
  imports Complex_Main "HOL-Library.Sublist"
begin

section \<open>JavaScript strings\<close>

text \<open>
  A string is a list of code units; the model covers the code units below 256 (ASCII and
  Latin-1), which is where \<open>\w\<close>, \<open>\s\<close> and \<open>toLowerCase\<close> are given below as
  JavaScript defines them. Numbers that the source holds in doubles are exact rationals
  here (or integers and naturals where the source only ever stores whole numbers).
\<close>

definition toLowerCaseChar :: "char \<Rightarrow> char" where
  "toLowerCaseChar c =
     (let n = (of_char c :: nat)
      in if (65 \<le> n \<and> n \<le> 90) \<or> (192 \<le> n \<and> n \<le> 222 \<and> n \<noteq> 215)
         then char_of (n + 32) else c)"

definition toLowerCase :: "string \<Rightarrow> string" where
  "toLowerCase s = map toLowerCaseChar s"

definition isWordChar :: "char \<Rightarrow> bool" where
  \<comment> \<open>the class \<open>\w\<close>: letters, digits and the underscore\<close>
  "isWordChar c =
     (let n = (of_char c :: nat)
      in (48 \<le> n \<and> n \<le> 57) \<or> (65 \<le> n \<and> n \<le> 90) \<or> n = 95 \<or> (97 \<le> n \<and> n \<le> 122))"

definition isSpaceChar :: "char \<Rightarrow> bool" where
  \<comment> \<open>the class \<open>\s\<close>: tab, line feed, vertical tab, form feed, carriage return, space,
      no-break space\<close>
  "isSpaceChar c =
     (let n = (of_char c :: nat)
      in (9 \<le> n \<and> n \<le> 13) \<or> n = 32 \<or> n = 160)"

text \<open>\<open>replace(/\s+/g, ' ')\<close>: every maximal run of white space becomes one space. The
  flag says whether the previous code unit was white space.\<close>

fun collapseFrom :: "bool \<Rightarrow> string \<Rightarrow> string" where
  "collapseFrom inRun [] = []"
| "collapseFrom inRun (c # cs) =
     (if isSpaceChar c
      then (if inRun then collapseFrom True cs else CHR '' '' # collapseFrom True cs)
      else c # collapseFrom False cs)"

definition collapseWhitespace :: "string \<Rightarrow> string" where
  "collapseWhitespace s = collapseFrom False s"

definition trim :: "string \<Rightarrow> string" where
  "trim s = rev (dropWhile isSpaceChar (rev (dropWhile isSpaceChar s)))"

definition substring0 :: "nat \<Rightarrow> string \<Rightarrow> string" where
  \<comment> \<open>\<open>s.substring(0, n)\<close>\<close>
  "substring0 n s = take n s"

fun startsWith :: "string \<Rightarrow> string \<Rightarrow> bool" where
  "startsWith s [] = True"
| "startsWith [] (p # ps) = False"
| "startsWith (c # cs) (p # ps) = (c = p \<and> startsWith cs ps)"

fun includes' :: "string \<Rightarrow> string \<Rightarrow> bool" where
  \<comment> \<open>\<open>s.includes(p)\<close>\<close>
  "includes' [] p = (p = [])"
| "includes' (c # cs) p = (startsWith (c # cs) p \<or> includes' cs p)"

fun digitsOf :: "nat \<Rightarrow> nat \<Rightarrow> string" where
  \<comment> \<open>the decimal digits of a number that has at most \<open>fuel\<close> of them\<close>
  "digitsOf 0 n = []"
| "digitsOf (Suc fuel) n =
     (if n < 10 then [char_of (48 + n)]
      else digitsOf fuel (n div 10) @ [char_of (48 + n mod 10)])"

definition numberToString :: "nat \<Rightarrow> string" where
  \<comment> \<open>what string concatenation makes of a non-negative whole number\<close>
  "numberToString n = digitsOf (Suc n) n"

definition truthy :: "string option \<Rightarrow> bool" where
  \<comment> \<open>an optional string in a condition: \<open>undefined\<close> and the empty string are false\<close>
  "truthy v = (case v of None \<Rightarrow> False | Some s \<Rightarrow> s \<noteq> [])"

definition orElse :: "string option \<Rightarrow> string \<Rightarrow> string" where
  \<comment> \<open>\<open>v || d\<close> for an optional string\<close>
  "orElse v d = (case v of None \<Rightarrow> d | Some s \<Rightarrow> if s = [] then d else s)"

section \<open>The shopping search service: result fusion\<close>

record boundingBox =
  x :: rat
  y :: rat
  width :: rat
  height :: rat

record ExtractedItem =
  id' :: string
  pieceType :: string
  description :: string
  boundingBox :: boundingBox
  confidence :: rat
  extractedImagePath :: "string option"
  extractedImageUrl :: "string option"
  color :: "string option"
  pattern :: "string option"
  style :: "string option"

text \<open>
  \<open>relevanceScore\<close> is the field that ranking adds to each object it returns; a candidate
  that has not been ranked yet does not have it.
\<close>

record ProductResult =
  title :: string
  price :: string
  currency :: string
  url :: string
  retailer :: string
  imageUrl :: "string option"
  rating :: "rat option"
  reviewCount :: "nat option"
  availability :: string
  source :: string
  relevanceScore :: "int option"

definition normalizeProductTitle :: "string \<Rightarrow> string" where
  "normalizeProductTitle t =
     substring0 60
       (trim
         (collapseWhitespace
           (filter (\<lambda>c. isWordChar c \<or> isSpaceChar c) (toLowerCase t))))"

definition sourceScores :: "(string \<times> int) list" where
  "sourceScores =
     [(''gemini_web_search'', 5),
      (''google_lens'', 4),
      (''google_reverse'', 3),
      (''bing_reverse'', 2),
      (''gemini_web_search_fallback'', 1)]"

text \<open>A source tag is one of the backend names, or any other string, which scores 0; the
  names that every JavaScript object inherits (such as \<open>constructor\<close>) are not source tags.\<close>

definition getSourceScore :: "string \<Rightarrow> int" where
  "getSourceScore src = (case map_of sourceScores src of Some v \<Rightarrow> v | None \<Rightarrow> 0)"

definition preferredRetailers :: "string list" where
  "preferredRetailers =
     [''Amazon'', ''Target'', ''Nordstrom'', ''Zara'', ''H&M'', ''ASOS'', ''Macy's'', ''Walmart'']"

definition calculateRelevance :: "ProductResult \<Rightarrow> ExtractedItem \<Rightarrow> int" where
  "calculateRelevance product item =
     (if source product = ''gemini_web_search'' then 25
      else if source product = ''google_lens'' then 20
      else if source product = ''google_reverse'' then 15
      else if source product = ''bing_reverse'' then 10
      else if source product = ''gemini_web_search_fallback'' then 8
      else 0)
     + (if retailer product \<in> set preferredRetailers then 3 else 0)
     + (if price product \<noteq> [] \<and> price product \<noteq> ''Price not available'' then 2 else 0)
     + (if truthy (imageUrl product) then 1 else 0)"

record DedupState =
  seenUrls :: "string set"
  seenTitles :: "string \<rightharpoonup> ProductResult"
  unique :: "ProductResult list"

definition dedupInit :: DedupState where
  "dedupInit = \<lparr>seenUrls = {}, seenTitles = Map.empty, unique = []\<rparr>"

text \<open>
  One turn of the deduplication loop. \<open>unique.indexOf(existingProduct)\<close> followed by
  \<open>splice(index, 1)\<close> removes the stored object. The kept candidates have pairwise
  different URLs, so no other element of \<open>unique\<close> equals it, and removing it is \<open>remove1\<close>.
\<close>

definition dedupStep :: "DedupState \<Rightarrow> ProductResult \<Rightarrow> DedupState" where
  "dedupStep st product =
     (if url product \<in> seenUrls st then st
      else
        let titleKey = normalizeProductTitle (title product)
        in case seenTitles st titleKey of
             Some existingProduct \<Rightarrow>
               if getSourceScore (source product) > getSourceScore (source existingProduct)
               then \<lparr>seenUrls = insert (url product) (seenUrls st - {url existingProduct}),
                     seenTitles = (seenTitles st)(titleKey \<mapsto> product),
                     unique = remove1 existingProduct (unique st) @ [product]\<rparr>
               else st
           | None \<Rightarrow>
               \<lparr>seenUrls = insert (url product) (seenUrls st),
                seenTitles = (seenTitles st)(titleKey \<mapsto> product),
                unique = unique st @ [product]\<rparr>)"

definition dedupLoop :: "ProductResult list \<Rightarrow> DedupState" where
  "dedupLoop products = foldl dedupStep dedupInit products"

definition withRelevance :: "ExtractedItem \<Rightarrow> ProductResult \<Rightarrow> ProductResult" where
  \<comment> \<open>\<open>{...product, relevanceScore: this.calculateRelevance(product, item)}\<close>\<close>
  "withRelevance item product = product\<lparr>relevanceScore := Some (calculateRelevance product item)\<rparr>"

definition scoreOf :: "ProductResult \<Rightarrow> int" where
  \<comment> \<open>the \<open>relevanceScore\<close> the comparator reads\<close>
  "scoreOf p = (case relevanceScore p of Some s \<Rightarrow> s | None \<Rightarrow> 0)"

text \<open>
  \<open>Array.prototype.sort\<close> is stable; with the comparator
  \<open>(a, b) => b.relevanceScore - a.relevanceScore\<close> it is the stable sort on the negated score.
\<close>

definition deduplicateAndRankProducts :: "ProductResult list \<Rightarrow> ExtractedItem \<Rightarrow> ProductResult list" where
  "deduplicateAndRankProducts products item =
     sort_key (\<lambda>p. - scoreOf p) (map (withRelevance item) (unique (dedupLoop products)))"


section \<open>The shopping search service: matching\<close>

record ShoppingSearchResults =
  itemId :: string
  pieceType' :: string
  extractedImageUrl' :: "string option"
  products :: "ProductResult list"
  searchMethod :: string
  confidence' :: rat
  totalResults :: nat

text \<open>
  The service holds a generative client when the configuration has an API key
  (\<open>searchGenAI\<close> is the field \<open>genAI\<close> of \<open>ShoppingSearchService\<close>).
\<close>

record ShoppingSearchService =
  serpApiKey :: string
  googleSearchApiKey :: string
  googleSearchEngineId :: string
  searchGenAI :: "unit option"

text \<open>
  The requests that leave the process. Each one is recorded with the item it is made for:
  \<open>AxiosGet\<close> downloads the item's extracted image, \<open>GenerateContent\<close> sends the prompt
  and the image to the generative model with the search tool.
\<close>

datatype backendCall = AxiosGet ExtractedItem | GenerateContent ExtractedItem

datatype RawProduct =
  RawProduct (rawTitle: "string option") (rawPrice: "string option")
             (rawUrl: "string option") (rawRetailer: "string option")

text \<open>
  The outside world of the matcher: the download of an image (\<open>None\<close> when the request
  throws), the answer of the generative model (\<open>None\<close> when the call throws, otherwise
  \<open>response.text || ''\<close>), and \<open>JSON.parse\<close> followed by the test for a \<open>products\<close>
  array (\<open>None\<close> when parsing throws, \<open>Some None\<close> when there is no such array).
\<close>

record SearchEnv =
  axiosGet :: "string \<Rightarrow> string option"
  generateContent :: "ExtractedItem \<Rightarrow> string \<Rightarrow> string option"
  jsonParseProducts :: "string \<Rightarrow> RawProduct list option option"

datatype 'a outcome = Returned 'a | Thrown string

text \<open>
  \<open>text.match(/\{[\s\S]*\}/)\<close> and \<open>text.match(/\[[\s\S]*\]/)\<close>: from the first opening
  delimiter to the last closing delimiter after it.
\<close>

definition matchDelimited :: "char \<Rightarrow> char \<Rightarrow> string \<Rightarrow> string option" where
  "matchDelimited opening closing s =
     (case dropWhile (\<lambda>c. c \<noteq> opening) s of
        [] \<Rightarrow> None
      | c # rest \<Rightarrow>
          (case rev (dropWhile (\<lambda>c. c \<noteq> closing) (rev rest)) of
             [] \<Rightarrow> None
           | body \<Rightarrow> Some (c # body)))"

text \<open>
  When the first pattern finds nothing, the pattern for a fenced code block finds nothing
  either (it needs the same pair of delimiters), so that branch returns the empty list.
\<close>

definition parseGeminiWebSearchResponse :: "SearchEnv \<Rightarrow> string \<Rightarrow> ProductResult list" where
  "parseGeminiWebSearchResponse env responseText =
     (case matchDelimited (CHR ''{'') (CHR ''}'') responseText of
        None \<Rightarrow> []
      | Some jsonText \<Rightarrow>
          (case jsonParseProducts env jsonText of
             None \<Rightarrow> []
           | Some None \<Rightarrow> []
           | Some (Some raws) \<Rightarrow>
               map (\<lambda>product.
                      \<lparr>title = orElse (rawTitle product) [],
                       price = orElse (rawPrice product) ''Price not available'',
                       currency = ''USD'',
                       url = orElse (rawUrl product) [],
                       retailer = orElse (rawRetailer product) ''Unknown Store'',
                       imageUrl = None,
                       rating = None,
                       reviewCount = None,
                       availability = ''available'',
                       source = ''gemini_web_search'',
                       relevanceScore = None\<rparr>)
                   (filter (\<lambda>product. truthy (rawUrl product) \<and> truthy (rawTitle product)) raws)))"

definition searchWithGeminiWebSearch ::
  "ShoppingSearchService \<Rightarrow> SearchEnv \<Rightarrow> ExtractedItem \<Rightarrow> backendCall list
     \<Rightarrow> ProductResult list \<times> backendCall list" where
  "searchWithGeminiWebSearch svc env item calls =
     (if searchGenAI svc = None \<or> \<not> truthy (extractedImageUrl item) then ([], calls)
      else
        (case axiosGet env (orElse (extractedImageUrl item) []) of
           None \<Rightarrow> ([], calls @ [AxiosGet item])
         | Some imageData \<Rightarrow>
             (case generateContent env item imageData of
                None \<Rightarrow> ([], calls @ [AxiosGet item, GenerateContent item])
              | Some responseText \<Rightarrow>
                  (parseGeminiWebSearchResponse env responseText,
                   calls @ [AxiosGet item, GenerateContent item]))))"

text \<open>\<open>searchByImage\<close> catches whatever is thrown inside it, so it always returns.\<close>

definition searchByImage ::
  "ShoppingSearchService \<Rightarrow> SearchEnv \<Rightarrow> ExtractedItem \<Rightarrow> backendCall list
     \<Rightarrow> ProductResult list outcome \<times> backendCall list" where
  "searchByImage svc env item calls =
     (if \<not> truthy (extractedImageUrl item) then (Returned [], calls)
      else if searchGenAI svc \<noteq> None
      then (case searchWithGeminiWebSearch svc env item calls of
              (geminiResults, calls') \<Rightarrow> (Returned geminiResults, calls'))
      else (Returned [], calls))"

text \<open>The body of the loop over the items: the \<open>try\<close> block and its \<open>catch\<close>.\<close>

definition searchItem ::
  "ShoppingSearchService \<Rightarrow> SearchEnv \<Rightarrow> ExtractedItem \<Rightarrow> backendCall list
     \<Rightarrow> ShoppingSearchResults \<times> backendCall list" where
  "searchItem svc env item calls =
     (case (if truthy (extractedImageUrl item) then searchByImage svc env item calls
            else (Returned [], calls)) of
        (Returned found, calls') \<Rightarrow>
          (\<lparr>itemId = id' item,
            pieceType' = pieceType item,
            extractedImageUrl' = extractedImageUrl item,
            products = found,
            searchMethod = (if truthy (extractedImageUrl item) \<and> length found > 0
                            then ''gemini_web_search'' else ''no_image_available''),
            confidence' = confidence item,
            totalResults = length found\<rparr>, calls')
      | (Thrown err, calls') \<Rightarrow>
          (\<lparr>itemId = id' item,
            pieceType' = pieceType item,
            extractedImageUrl' = extractedImageUrl item,
            products = [],
            searchMethod = ''visual_search_failed'',
            confidence' = confidence item,
            totalResults = 0\<rparr>, calls'))"

fun searchLoop ::
  "ShoppingSearchService \<Rightarrow> SearchEnv \<Rightarrow> ExtractedItem list
     \<Rightarrow> ShoppingSearchResults list \<times> backendCall list
     \<Rightarrow> ShoppingSearchResults list \<times> backendCall list" where
  "searchLoop svc env [] (results, calls) = (results, calls)"
| "searchLoop svc env (item # rest) (results, calls) =
     (case searchItem svc env item calls of
        (r, calls') \<Rightarrow> searchLoop svc env rest (results @ [r], calls'))"

definition searchProductsForExtractedItems ::
  "ShoppingSearchService \<Rightarrow> SearchEnv \<Rightarrow> ExtractedItem list
     \<Rightarrow> ShoppingSearchResults list \<times> backendCall list" where
  "searchProductsForExtractedItems svc env extractedItems =
     searchLoop svc env extractedItems ([], [])"


section \<open>The item extraction service\<close>

record ItemExtractionService =
  genAI :: "unit option"
  model :: "unit option"

definition newItemExtractionService :: "string option \<Rightarrow> ItemExtractionService" where
  \<comment> \<open>the constructor, from \<open>config.google.geminiApiKey\<close>\<close>
  "newItemExtractionService geminiApiKey =
     (if truthy geminiApiKey then \<lparr>genAI = Some (), model = Some ()\<rparr>
      else \<lparr>genAI = None, model = None\<rparr>)"

datatype RawItem =
  RawItem (rawPieceType: "string option") (rawDescription: "string option")
          (rawBoundingBox: "boundingBox option") (rawConfidence: "rat option")
          (rawColor: "string option") (rawPattern: "string option") (rawStyle: "string option")

text \<open>
  The outside world of the extractor. \<open>fetchImage\<close> is the download of the flat lay and
  \<open>analyse\<close> the answer of the generative model to the analysis prompt (\<open>None\<close> when the
  call throws). \<open>jsonParse\<close> is \<open>JSON.parse\<close> with the test \<open>Array.isArray\<close>: \<open>None\<close>
  when either fails, otherwise the elements, \<open>None\<close> for an element \<open>null\<close>.
  \<open>md5hex\<close> is \<open>createHash('md5').update(s).digest('hex')\<close> and \<open>dateNow k\<close> the
  \<open>k\<close>-th reading of \<open>Date.now()\<close> that ends up in a result. \<open>isolate\<close> and \<open>crop\<close> are
  the two generative calls that ask for the image of one item: \<open>None\<close> when the call
  throws, \<open>Some None\<close> when the answer has no inline image. \<open>writeFile\<close> says whether
  saving an image succeeds, \<open>port\<close> is \<open>config.port\<close>.
\<close>

record ExtractionEnv =
  fetchImage :: "string \<Rightarrow> string option"
  analyse :: "string \<Rightarrow> string option"
  jsonParse :: "string \<Rightarrow> RawItem option list option"
  md5hex :: "string \<Rightarrow> string"
  dateNow :: "nat \<Rightarrow> nat"
  isolate :: "ExtractedItem \<Rightarrow> string option option"
  crop :: "ExtractedItem \<Rightarrow> string option option"
  writeFile :: "string \<Rightarrow> string \<Rightarrow> bool"
  port :: nat

datatype extractionError = Error string

definition clothingTypes :: "string list" where
  "clothingTypes =
     [''dress'', ''shirt'', ''pants'', ''shoes'', ''bag'', ''sunglasses'', ''jewelry'',
      ''jacket'', ''coat'', ''skirt'', ''shorts'']"

definition regexTest :: "string \<Rightarrow> string \<Rightarrow> bool" where
  \<comment> \<open>\<open>new RegExp(type, 'gi').test(text)\<close> for a pattern of lower-case letters\<close>
  "regexTest type text = includes' (toLowerCase text) type"

definition toUpperCaseChar :: "char \<Rightarrow> char" where
  "toUpperCaseChar c =
     (let n = (of_char c :: nat)
      in if 97 \<le> n \<and> n \<le> 122 then char_of (n - 32) else c)"

definition capitalize :: "string \<Rightarrow> string" where
  \<comment> \<open>\<open>type.charAt(0).toUpperCase() + type.slice(1)\<close>, for a word of ASCII letters\<close>
  "capitalize s = (case s of [] \<Rightarrow> [] | c # cs \<Rightarrow> toUpperCaseChar c # cs)"

definition remainder :: "rat \<Rightarrow> rat \<Rightarrow> rat" where
  \<comment> \<open>\<open>a % b\<close> for \<open>a \<ge> 0\<close> and \<open>b > 0\<close>\<close>
  "remainder a b = a - b * of_int \<lfloor>a / b\<rfloor>"

definition regexItem :: "nat \<Rightarrow> ExtractedItem" where
  \<comment> \<open>the entry pushed for the keyword with index \<open>i\<close>\<close>
  "regexItem i =
     \<lparr>id' = ''extracted-fallback-'' @ numberToString i,
      pieceType = clothingTypes ! i,
      description = capitalize (clothingTypes ! i) @ '' identified in flat lay'',
      boundingBox = \<lparr>x = 1/10 + remainder (of_nat i * (1/10)) (8/10),
                     y = 1/10 + of_nat (i div 3) * (3/10),
                     width = 3/10,
                     height = 3/10\<rparr>,
      confidence = 7/10,
      extractedImagePath = None,
      extractedImageUrl = None,
      color = Some ''various'',
      pattern = Some ''unknown'',
      style = Some ''casual''\<rparr>"

definition extractItemsWithRegex :: "string \<Rightarrow> string \<Rightarrow> ExtractedItem list" where
  "extractItemsWithRegex analysisText flatLayImageUrl =
     take 5
       (foldl (\<lambda>items i. if regexTest (clothingTypes ! i) analysisText
                          then items @ [regexItem i] else items)
          [] [0..<length clothingTypes])"

definition parsedItem :: "ExtractionEnv \<Rightarrow> string \<Rightarrow> RawItem \<Rightarrow> nat \<Rightarrow> ExtractedItem" where
  \<comment> \<open>the callback of \<open>parsedItems.map\<close>\<close>
  "parsedItem env flatLayImageUrl item index =
     \<lparr>id' = ''extracted-'' @ substring0 8 (md5hex env (flatLayImageUrl @ numberToString index)),
      pieceType = orElse (rawPieceType item) ''unknown'',
      description = orElse (rawDescription item)
                      ((case rawPieceType item of None \<Rightarrow> ''undefined'' | Some t \<Rightarrow> t) @ '' item''),
      boundingBox = (case rawBoundingBox item of
                       None \<Rightarrow> \<lparr>x = 1/10, y = 1/10, width = 8/10, height = 8/10\<rparr>
                     | Some b \<Rightarrow> b),
      confidence = (case rawConfidence item of
                      None \<Rightarrow> 8/10
                    | Some c \<Rightarrow> if c = 0 then 8/10 else c),
      extractedImagePath = None,
      extractedImageUrl = None,
      color = rawColor item,
      pattern = rawPattern item,
      style = rawStyle item\<rparr>"

fun mapIndexed :: "('a \<Rightarrow> nat \<Rightarrow> 'b) \<Rightarrow> nat \<Rightarrow> 'a list \<Rightarrow> 'b list" where
  \<comment> \<open>\<open>xs.map((item, index) => ...)\<close>, counting from the given index\<close>
  "mapIndexed f k [] = []"
| "mapIndexed f k (a # as) = f a k # mapIndexed f (Suc k) as"

text \<open>
  When the pattern for a JSON array finds nothing, the pattern for a fenced code block finds
  nothing either, and the whole text goes to \<open>JSON.parse\<close>. An element \<open>null\<close> makes the
  callback throw, which the \<open>catch\<close> turns into the keyword scan.
\<close>

definition jsonArrayText :: "string \<Rightarrow> string" where
  \<comment> \<open>the text handed to \<open>JSON.parse\<close>\<close>
  "jsonArrayText analysisText =
     (case matchDelimited (CHR ''['') (CHR '']'') analysisText of
        Some m \<Rightarrow> m
      | None \<Rightarrow> analysisText)"

definition parseGeminiResponse :: "ExtractionEnv \<Rightarrow> string \<Rightarrow> string \<Rightarrow> ExtractedItem list" where
  "parseGeminiResponse env analysisText flatLayImageUrl =
     (let jsonText = jsonArrayText analysisText
      in case jsonParse env jsonText of
           None \<Rightarrow> extractItemsWithRegex analysisText flatLayImageUrl
         | Some parsedItems \<Rightarrow>
             (case those parsedItems of
                None \<Rightarrow> extractItemsWithRegex analysisText flatLayImageUrl
              | Some objects \<Rightarrow> mapIndexed (parsedItem env flatLayImageUrl) 0 objects))"

definition fallbackItem :: "string \<Rightarrow> string \<Rightarrow> nat \<Rightarrow> boundingBox \<Rightarrow> ExtractedItem" where
  "fallbackItem type desc t box =
     \<lparr>id' = ''fallback-'' @ type @ ''-'' @ numberToString t,
      pieceType = type,
      description = desc,
      boundingBox = box,
      confidence = 6/10,
      extractedImagePath = None,
      extractedImageUrl = None,
      color = Some ''various'',
      pattern = Some ''unknown'',
      style = Some ''casual''\<rparr>"

definition generateFallbackItems :: "ExtractionEnv \<Rightarrow> string \<Rightarrow> ExtractedItem list" where
  "generateFallbackItems env flatLayImageUrl =
     [fallbackItem ''dress'' ''Dress from flat lay outfit'' (dateNow env 0)
        \<lparr>x = 2/10, y = 1/10, width = 6/10, height = 7/10\<rparr>,
      fallbackItem ''shoes'' ''Shoes from flat lay outfit'' (dateNow env 1)
        \<lparr>x = 1/10, y = 8/10, width = 3/10, height = 15/100\<rparr>,
      fallbackItem ''bag'' ''Bag from flat lay outfit'' (dateNow env 2)
        \<lparr>x = 7/10, y = 3/10, width = 25/100, height = 3/10\<rparr>]"


subsection \<open>Removing duplicates\<close>

definition typeMap :: "(string \<times> string) list" where
  "typeMap =
     [(''shoe'', ''shoes''), (''boot'', ''shoes''), (''boots'', ''shoes''),
      (''sneaker'', ''shoes''), (''sneakers'', ''shoes''), (''sandal'', ''shoes''),
      (''sandals'', ''shoes''), (''heel'', ''shoes''), (''heels'', ''shoes''),
      (''earring'', ''earrings''), (''glove'', ''gloves''), (''sock'', ''socks''),
      (''stocking'', ''socks'')]"

text \<open>A piece type is a word for a garment; the names that every JavaScript object
  inherits (such as \<open>constructor\<close>) are not piece types.\<close>

definition normalizePieceType :: "string \<Rightarrow> string" where
  "normalizePieceType pt =
     (let type = toLowerCase pt
      in case map_of typeMap type of
           Some t \<Rightarrow> t
         | None \<Rightarrow> type)"

definition pairWords :: "string list" where
  "pairWords = [''left'', ''right'', ''pair'', ''pairs'', ''both'']"

text \<open>
  \<open>replace(/\b(left|right|pair|pairs|both)\b/g, '')\<close>: a match begins and ends at a word
  boundary and has only word characters, so it is a maximal run of word characters; the
  runs that are one of the five words are dropped. \<open>w\<close> is the run read so far.
\<close>

fun dropPairWords :: "string \<Rightarrow> string \<Rightarrow> string" where
  "dropPairWords w [] = (if w \<in> set pairWords then [] else w)"
| "dropPairWords w (c # cs) =
     (if isWordChar c then dropPairWords (w @ [c]) cs
      else (if w \<in> set pairWords then [] else w) @ c # dropPairWords [] cs)"

definition normalizeDescription :: "string \<Rightarrow> string" where
  "normalizeDescription d =
     substring0 50 (trim (collapseWhitespace (dropPairWords [] (toLowerCase d))))"

definition generateItemKey :: "ExtractedItem \<Rightarrow> string" where
  "generateItemKey item =
     (let normalizedType = normalizePieceType (pieceType item);
          normalizedColor = (if truthy (color item) then toLowerCase (orElse (color item) [])
                             else ''unknown'');
          normalizedDescription = normalizeDescription (description item)
      in normalizedType @ ''-'' @ normalizedColor @ ''-'' @ normalizedDescription)"

definition colorGroups :: "string list list" where
  "colorGroups =
     [[''black'', ''dark'', ''charcoal''],
      [''white'', ''cream'', ''ivory'', ''off-white''],
      [''blue'', ''navy'', ''denim''],
      [''brown'', ''tan'', ''beige'', ''camel''],
      [''red'', ''burgundy'', ''wine''],
      [''pink'', ''rose'', ''blush'']]"

definition colorsMatch :: "string option \<Rightarrow> string option \<Rightarrow> bool" where
  "colorsMatch color1 color2 =
     (if \<not> truthy color1 \<or> \<not> truthy color2 then True
      else
        let c1 = toLowerCase (orElse color1 []); c2 = toLowerCase (orElse color2 [])
        in if c1 = c2 then True
           else list_ex (\<lambda>group. c1 \<in> set group \<and> c2 \<in> set group) colorGroups)"

fun splitFrom :: "string \<Rightarrow> string \<Rightarrow> string list" where
  \<comment> \<open>\<open>s.split(' ')\<close>; the first argument is the piece read so far\<close>
  "splitFrom piece [] = [piece]"
| "splitFrom piece (c # cs) =
     (if c = CHR '' '' then piece # splitFrom [] cs else splitFrom (piece @ [c]) cs)"

definition wordSet :: "string \<Rightarrow> string list" where
  \<comment> \<open>\<open>new Set(desc.split(' ').filter(w => w.length > 2))\<close>, as a list without repetition\<close>
  "wordSet desc = remdups (filter (\<lambda>w. length w > 2) (splitFrom [] desc))"

definition calculateDescriptionSimilarity :: "string \<Rightarrow> string \<Rightarrow> rat" where
  "calculateDescriptionSimilarity desc1 desc2 =
     (let words1 = wordSet desc1;
          words2 = wordSet desc2;
          intersection = filter (\<lambda>w. w \<in> set words2) words1;
          union = remdups (words1 @ words2)
      in if length union > 0 then of_nat (length intersection) / of_nat (length union) else 0)"

definition calculateSpatialSimilarity :: "boundingBox \<Rightarrow> boundingBox \<Rightarrow> rat" where
  "calculateSpatialSimilarity box1 box2 =
     (let x1 = max (x box1) (x box2);
          y1 = max (y box1) (y box2);
          x2 = min (x box1 + width box1) (x box2 + width box2);
          y2 = min (y box1 + height box1) (y box2 + height box2)
      in if x2 \<le> x1 \<or> y2 \<le> y1 then 0
         else
           let overlapArea = (x2 - x1) * (y2 - y1);
               box1Area = width box1 * height box1;
               box2Area = width box2 * height box2;
               unionArea = box1Area + box2Area - overlapArea
           in if unionArea > 0 then overlapArea / unionArea else 0)"

definition pairedTypes :: "string list" where
  "pairedTypes = [''shoes'', ''earrings'', ''gloves'', ''socks'']"

text \<open>The test made on one existing item inside the loop of \<open>isDuplicatePairedItem\<close>.\<close>

definition pairMatch :: "ExtractedItem \<Rightarrow> ExtractedItem \<Rightarrow> bool" where
  "pairMatch newItem existingItem =
     (normalizePieceType (pieceType existingItem) = normalizePieceType (pieceType newItem) \<and>
      (let colorMatch = colorsMatch (color newItem) (color existingItem);
           descriptionSimilarity =
             calculateDescriptionSimilarity
               (normalizeDescription (description newItem))
               (normalizeDescription (description existingItem));
           spatialSimilarity =
             calculateSpatialSimilarity (boundingBox newItem) (boundingBox existingItem)
       in colorMatch \<and> (descriptionSimilarity > 6/10 \<or> spatialSimilarity > 3/10)))"

fun anyPairMatch :: "ExtractedItem \<Rightarrow> ExtractedItem list \<Rightarrow> bool" where
  "anyPairMatch newItem [] = False"
| "anyPairMatch newItem (existingItem # rest) =
     (if pairMatch newItem existingItem then True else anyPairMatch newItem rest)"

definition isDuplicatePairedItem :: "ExtractedItem \<Rightarrow> ExtractedItem list \<Rightarrow> bool" where
  "isDuplicatePairedItem newItem existingItems =
     (if normalizePieceType (pieceType newItem) \<notin> set pairedTypes then False
      else anyPairMatch newItem existingItems)"

definition removeStep ::
  "ExtractedItem list \<times> string set \<Rightarrow> ExtractedItem \<Rightarrow> ExtractedItem list \<times> string set" where
  \<comment> \<open>one turn of the loop, on \<open>(deduplicatedItems, seenItems)\<close>\<close>
  "removeStep st item =
     (case st of (deduplicatedItems, seenItems) \<Rightarrow>
        let itemKey = generateItemKey item
        in if itemKey \<notin> seenItems then (deduplicatedItems @ [item], insert itemKey seenItems)
           else if \<not> isDuplicatePairedItem item deduplicatedItems
                then (deduplicatedItems @ [item], seenItems)
                else (deduplicatedItems, seenItems))"

definition removeDuplicateItems :: "ExtractedItem list \<Rightarrow> ExtractedItem list" where
  "removeDuplicateItems items = fst (foldl removeStep ([], {}) items)"

subsection \<open>Item images and the whole extraction\<close>

fun joinWith :: "string \<Rightarrow> string list \<Rightarrow> string" where
  \<comment> \<open>\<open>parts.join(sep)\<close>\<close>
  "joinWith sep [] = []"
| "joinWith sep [p] = p"
| "joinWith sep (p # q # ps) = p @ sep @ joinWith sep (q # ps)"

definition enhanceItemDescription :: "ExtractedItem \<Rightarrow> string" where
  "enhanceItemDescription item =
     (let parts =
            (if truthy (color item) \<and> color item \<noteq> Some ''various'' \<and> color item \<noteq> Some ''unknown''
             then [orElse (color item) []] else [])
          @ (if truthy (pattern item) \<and> pattern item \<noteq> Some ''solid'' \<and> pattern item \<noteq> Some ''unknown''
             then [orElse (pattern item) []] else [])
          @ [pieceType item]
          @ (if truthy (style item) \<and> style item \<noteq> Some ''unknown''
             then [orElse (style item) []] else [])
          @ (let t = toLowerCase (pieceType item)
             in if t = ''dress'' then [''women's'', ''fashion'']
                else if t = ''shoes'' then [''footwear'']
                else if t = ''bag'' then [''handbag'', ''accessory'']
                else if t = ''sunglasses'' then [''eyewear'', ''accessory'']
                else [])
      in joinWith '' '' parts)"


text \<open>
  The body of the loop of \<open>generateItemImages\<close> for the item at position \<open>k\<close>. \<open>plain\<close> is
  what the \<open>catch\<close> pushes: the item with the enhanced description and nothing else changed.
\<close>

definition itemWithImage :: "ExtractionEnv \<Rightarrow> ExtractedItem \<Rightarrow> nat \<Rightarrow> ExtractedItem" where
  "itemWithImage env item k =
     (let itemHash = md5hex env (id' item @ description item);
          itemFilename = ''item_'' @ itemHash @ ''_'' @ numberToString (dateNow env k) @ ''.png'';
          itemPath = ''public/generated/items/'' @ itemFilename;
          publicUrl = ''http://localhost:'' @ numberToString (port env)
                        @ ''/generated/items/'' @ itemFilename;
          plain = item\<lparr>description := enhanceItemDescription item\<rparr>
      in case isolate env item of
           None \<Rightarrow> plain
         | Some (Some inlineData) \<Rightarrow>
             if writeFile env inlineData itemPath
             then item\<lparr>extractedImagePath := Some itemPath,
                       extractedImageUrl := Some publicUrl,
                       description := enhanceItemDescription item\<rparr>
             else plain
         | Some None \<Rightarrow>
             (case crop env item of
                Some (Some inlineData) \<Rightarrow>
                  if writeFile env inlineData itemPath
                  then item\<lparr>extractedImagePath := None,
                            extractedImageUrl := Some publicUrl,
                            description := enhanceItemDescription item\<rparr>
                  else item\<lparr>extractedImagePath := None,
                            extractedImageUrl := None,
                            description := enhanceItemDescription item\<rparr>
              | _ \<Rightarrow> item\<lparr>extractedImagePath := None,
                          extractedImageUrl := None,
                          description := enhanceItemDescription item\<rparr>))"

definition generateItemImages ::
  "ItemExtractionService \<Rightarrow> ExtractionEnv \<Rightarrow> ExtractedItem list \<Rightarrow> ExtractedItem list" where
  "generateItemImages svc env items =
     (if genAI svc = None \<or> model svc = None then items
      else mapIndexed (itemWithImage env) 0 items)"

text \<open>
  The guard stands before the \<open>try\<close>; everything thrown inside the \<open>try\<close> ends in
  \<open>generateFallbackItems\<close>.
\<close>

definition extractIndividualItems ::
  "ItemExtractionService \<Rightarrow> ExtractionEnv \<Rightarrow> string \<Rightarrow> extractionError + ExtractedItem list" where
  "extractIndividualItems svc env flatLayImageUrl =
     (if genAI svc = None \<or> model svc = None then Inl (Error ''Gemini API not configured'')
      else
        (case fetchImage env flatLayImageUrl of
           None \<Rightarrow> Inr (generateFallbackItems env flatLayImageUrl)
         | Some imageData \<Rightarrow>
             (case analyse env imageData of
                None \<Rightarrow> Inr (generateFallbackItems env flatLayImageUrl)
              | Some analysisText \<Rightarrow>
                  Inr (generateItemImages svc env
                         (removeDuplicateItems
                            (parseGeminiResponse env analysisText flatLayImageUrl))))))"


section \<open>Invariants of the two deduplication loops\<close>

definition titleKeyOf :: "ProductResult \<Rightarrow> string" where
  "titleKeyOf p = normalizeProductTitle (title p)"

text \<open>
  What the loop of \<open>deduplicateAndRankProducts\<close> keeps true: the kept candidates have
  pairwise different URLs and title keys, \<open>seenUrls\<close> holds exactly their URLs and
  \<open>seenTitles\<close> maps each title key to the kept candidate that has it.
\<close>

definition dedupInv :: "DedupState \<Rightarrow> bool" where
  "dedupInv st \<longleftrightarrow>
     distinct (map url (unique st)) \<and>
     seenUrls st = url ` set (unique st) \<and>
     distinct (map titleKeyOf (unique st)) \<and>
     (\<forall>k p. seenTitles st k = Some p \<longleftrightarrow> (p \<in> set (unique st) \<and> titleKeyOf p = k))"



section \<open>Sample inputs\<close>

definition sampleCandidate :: "nat \<Rightarrow> ProductResult" where
  "sampleCandidate i =
     \<lparr>title = ''Linen dress '' @ numberToString i,
      price = ''$10'',
      currency = ''USD'',
      url = ''https://shop.example/p/'' @ numberToString i,
      retailer = ''Shop'',
      imageUrl = None,
      rating = None,
      reviewCount = None,
      availability = ''available'',
      source = ''gemini_web_search'',
      relevanceScore = None\<rparr>"


definition lensCandidate :: ProductResult where
  "lensCandidate = (sampleCandidate 1)\<lparr>source := ''google_lens''\<rparr>"

definition sampleItem :: ExtractedItem where
  "sampleItem =
     \<lparr>id' = ''extracted-0a1b2c3d'',
      pieceType = ''dress'',
      description = ''White linen dress'',
      boundingBox = \<lparr>x = 2/10, y = 1/10, width = 6/10, height = 7/10\<rparr>,
      confidence = 9/10,
      extractedImagePath = None,
      extractedImageUrl = None,
      color = Some ''white'',
      pattern = None,
      style = None\<rparr>"

definition imageItem :: ExtractedItem where
  "imageItem =
     sampleItem\<lparr>id' := ''extracted-4e5f6a7b'',
                extractedImageUrl := Some ''http://localhost:3001/generated/items/item_1.png''\<rparr>"





definition sampleSearchService :: ShoppingSearchService where
  "sampleSearchService =
     \<lparr>serpApiKey = [], googleSearchApiKey = [], googleSearchEngineId = [], searchGenAI = Some ()\<rparr>"

definition sampleSearchEnv :: SearchEnv where
  "sampleSearchEnv =
     \<lparr>axiosGet = (\<lambda>u. Some ''png''),
      generateContent = (\<lambda>item imageData. Some ''{products}''),
      jsonParseProducts =
        (\<lambda>t. Some (Some [RawProduct (Some ''Linen dress'') (Some ''$20'')
                             (Some ''https://shop.example/p/7'') None]))\<rparr>"

definition emptySearchEnv :: SearchEnv where
  \<comment> \<open>a model that answers with an empty product list\<close>
  "emptySearchEnv = sampleSearchEnv\<lparr>jsonParseProducts := (\<lambda>t. Some (Some []))\<rparr>"

definition dressEnv :: ExtractionEnv where
  \<comment> \<open>a model that answers in prose, naming a dress; the hash is a stand-in\<close>
  "dressEnv =
     \<lparr>fetchImage = (\<lambda>u. Some ''png''),
      analyse = (\<lambda>imageData. Some ''I can see a dress.''),
      jsonParse = (\<lambda>t. None),
      md5hex = (\<lambda>s. take 2 (rev s) @ ''1d8cd98f00b204e9800998ecf8427e''),
      dateNow = (\<lambda>k. 1000 + k),
      isolate = (\<lambda>item. None),
      crop = (\<lambda>item. None),
      writeFile = (\<lambda>d path. True),
      port = 3001\<rparr>"




section \<open>Properties\<close>

subsection \<open>The deduplication loop\<close>

lemma dedupInv_init: "dedupInv dedupInit"
  by (simp add: dedupInv_def dedupInit_def)

lemma distinct_map_remove1:
  "distinct (map f xs) \<Longrightarrow> distinct (map f (remove1 a xs))"
  by (induction xs) (auto simp: image_iff dest: notin_set_remove1)

lemma image_remove1_distinct:
  assumes "distinct (map f xs)" and "a \<in> set xs"
  shows "f ` set (remove1 a xs) = f ` set xs - {f a}"
proof -
  have d: "distinct xs" and inj: "inj_on f (set xs)"
    using assms(1) by (simp_all add: distinct_map)
  have "f ` (set xs - {a}) = f ` set xs - f ` {a}"
    using inj assms(2) by (intro inj_on_image_set_diff[where C = "set xs"]) auto
  then show ?thesis using d by simp
qed

lemma dedupStep_seen: "url p \<in> seenUrls st \<Longrightarrow> dedupStep st p = st"
  by (simp add: dedupStep_def)

lemma dedupStep_new:
  "url p \<notin> seenUrls st \<Longrightarrow> seenTitles st (titleKeyOf p) = None \<Longrightarrow>
   dedupStep st p = \<lparr>seenUrls = insert (url p) (seenUrls st),
                seenTitles = (seenTitles st)(titleKeyOf p \<mapsto> p),
                unique = unique st @ [p]\<rparr>"
  by (simp add: dedupStep_def titleKeyOf_def)

lemma dedupStep_replace:
  "url p \<notin> seenUrls st \<Longrightarrow> seenTitles st (titleKeyOf p) = Some e \<Longrightarrow>
   getSourceScore (source e) < getSourceScore (source p) \<Longrightarrow>
   dedupStep st p = \<lparr>seenUrls = insert (url p) (seenUrls st - {url e}),
                     seenTitles = (seenTitles st)(titleKeyOf p \<mapsto> p),
                     unique = remove1 e (unique st) @ [p]\<rparr>"
  by (simp add: dedupStep_def titleKeyOf_def)

lemma dedupStep_keep:
  "url p \<notin> seenUrls st \<Longrightarrow> seenTitles st (titleKeyOf p) = Some e \<Longrightarrow>
   \<not> getSourceScore (source e) < getSourceScore (source p) \<Longrightarrow>
   dedupStep st p = st"
  by (simp add: dedupStep_def titleKeyOf_def)

lemma dedupInv_step:
  assumes inv: "dedupInv st"
  shows "dedupInv (dedupStep st p)"
proof (cases "url p \<in> seenUrls st")
  case True
  then show ?thesis using inv by (simp add: dedupStep_seen)
next
  case unseen: False
  from inv have du: "distinct (map url (unique st))"
    and su: "seenUrls st = url ` set (unique st)"
    and dk: "distinct (map titleKeyOf (unique st))"
    and st: "\<And>k q. seenTitles st k = Some q \<longleftrightarrow> (q \<in> set (unique st) \<and> titleKeyOf q = k)"
    by (simp_all add: dedupInv_def)
  show ?thesis
  proof (cases "seenTitles st (titleKeyOf p)")
    case None
    then have nokey: "\<And>q. q \<in> set (unique st) \<Longrightarrow> titleKeyOf q \<noteq> titleKeyOf p"
      using st by (metis option.distinct(1))
    have nourl: "url p \<notin> url ` set (unique st)"
      using unseen su by simp
    have nokeyI: "titleKeyOf p \<notin> titleKeyOf ` set (unique st)"
      using nokey by force
    have a: "distinct (map url (unique st @ [p]))"
      using du nourl by simp
    have b: "insert (url p) (seenUrls st) = url ` set (unique st @ [p])"
      using su by simp
    have c: "distinct (map titleKeyOf (unique st @ [p]))"
      using dk nokeyI by simp
    have d: "((seenTitles st)(titleKeyOf p \<mapsto> p)) k = Some q \<longleftrightarrow>
                 (q \<in> set (unique st @ [p]) \<and> titleKeyOf q = k)" for k q
    proof (cases "k = titleKeyOf p")
      case True
      then show ?thesis using nokey by auto
    next
      case False
      then show ?thesis using st by auto
    qed
    have "dedupInv \<lparr>seenUrls = insert (url p) (seenUrls st),
                seenTitles = (seenTitles st)(titleKeyOf p \<mapsto> p),
                unique = unique st @ [p]\<rparr>"
      unfolding dedupInv_def using a b c d by simp
    then show ?thesis using unseen None by (simp add: dedupStep_new)
  next
    case (Some e)
    then have e_in: "e \<in> set (unique st)" and e_key: "titleKeyOf e = titleKeyOf p"
      using st by auto
    show ?thesis
    proof (cases "getSourceScore (source e) < getSourceScore (source p)")
      case False
      then show ?thesis using unseen Some inv by (simp add: dedupStep_keep)
    next
      case True
      have dist: "distinct (unique st)" using du by (simp add: distinct_map)
      have s1: "set (remove1 e (unique st)) = set (unique st) - {e}"
        using dist by simp
      have u1: "url ` set (remove1 e (unique st)) = url ` set (unique st) - {url e}"
        using du e_in by (rule image_remove1_distinct)
      have k1: "titleKeyOf ` set (remove1 e (unique st)) = titleKeyOf ` set (unique st) - {titleKeyOf e}"
        using dk e_in by (rule image_remove1_distinct)
      have a: "distinct (map url (remove1 e (unique st) @ [p]))"
        using du unseen su u1 by (simp add: distinct_map_remove1)
      have b: "insert (url p) (seenUrls st - {url e}) = url ` set (remove1 e (unique st) @ [p])"
        using su u1 by simp
      have c: "distinct (map titleKeyOf (remove1 e (unique st) @ [p]))"
        using dk k1 e_key by (simp add: distinct_map_remove1)
      have d: "((seenTitles st)(titleKeyOf p \<mapsto> p)) k = Some q \<longleftrightarrow>
                 (q \<in> set (remove1 e (unique st) @ [p]) \<and> titleKeyOf q = k)" for k q
      proof (cases "k = titleKeyOf p")
        case True
        have "inj_on titleKeyOf (set (unique st))"
          using dk by (simp add: distinct_map)
        then have "q \<in> set (unique st) \<Longrightarrow> titleKeyOf q = titleKeyOf p \<Longrightarrow> q = e"
          using e_in e_key by (simp add: inj_on_def)
        then show ?thesis using True s1 by auto
      next
        case False
        then show ?thesis using st s1 e_key by auto
      qed
      have "dedupInv \<lparr>seenUrls = insert (url p) (seenUrls st - {url e}),
                     seenTitles = (seenTitles st)(titleKeyOf p \<mapsto> p),
                     unique = remove1 e (unique st) @ [p]\<rparr>"
        unfolding dedupInv_def using a b c d by simp
      then show ?thesis using unseen Some True by (simp add: dedupStep_replace)
    qed
  qed
qed

lemma dedupInv_foldl: "dedupInv st \<Longrightarrow> dedupInv (foldl dedupStep st ps)"
  by (induction ps arbitrary: st) (simp_all add: dedupInv_step)

lemma dedupInv_loop: "dedupInv (dedupLoop ps)"
  by (simp add: dedupLoop_def dedupInv_foldl dedupInv_init)

lemma url_withRelevance [simp]: "url (withRelevance item p) = url p"
  by (simp add: withRelevance_def)

lemma title_withRelevance [simp]: "title (withRelevance item p) = title p"
  by (simp add: withRelevance_def)

lemma distinct_map_sort_key: "distinct (map f (sort_key g xs)) = distinct (map f xs)"
  by (simp add: distinct_map)

lemma ranked_urls_distinct:
  "distinct (map url (deduplicateAndRankProducts ps item))"
proof -
  have "map url (map (withRelevance item) (unique (dedupLoop ps)))
          = map url (unique (dedupLoop ps))"
    by simp
  moreover have "distinct (map url (unique (dedupLoop ps)))"
    using dedupInv_loop [of ps] by (simp add: dedupInv_def)
  ultimately show ?thesis
    unfolding deduplicateAndRankProducts_def by (simp only: distinct_map_sort_key)
qed

lemma ranked_keys_distinct:
  "distinct (map titleKeyOf (deduplicateAndRankProducts ps item))"
proof -
  have "map titleKeyOf (map (withRelevance item) (unique (dedupLoop ps)))
          = map titleKeyOf (unique (dedupLoop ps))"
    by (simp add: titleKeyOf_def)
  moreover have "distinct (map titleKeyOf (unique (dedupLoop ps)))"
    using dedupInv_loop [of ps] by (simp add: dedupInv_def)
  ultimately show ?thesis
    unfolding deduplicateAndRankProducts_def by (simp only: distinct_map_sort_key)
qed

text \<open>
  Claim C1. Whatever the input list, the list returned by \<open>deduplicateAndRankProducts\<close>
  has no two candidates with the same URL and no two candidates whose titles have the same
  key under \<open>normalizeProductTitle\<close>.
\<close>

theorem fusion_no_duplicates:
  "distinct (map url (deduplicateAndRankProducts ps item)) \<and>
   distinct (map (\<lambda>p. normalizeProductTitle (title p)) (deduplicateAndRankProducts ps item))"
  using ranked_urls_distinct [of ps item] ranked_keys_distinct [of ps item]
  by (simp add: titleKeyOf_def [abs_def])

subsection \<open>Ranking\<close>

lemma subseq_remove1: "subseq (remove1 a xs) xs"
  by (induction xs) auto

lemma dedupStep_subseq:
  assumes "subseq (unique st) pre"
  shows "subseq (unique (dedupStep st p)) (pre @ [p])"
proof -
  have keep: "subseq (unique st) (pre @ [p])"
    using assms by (rule subseq_rev_drop_many)
  have app: "subseq (unique st @ [p]) (pre @ [p])"
    using assms by (simp add: list_emb_append_mono)
  have rep: "subseq (remove1 e (unique st) @ [p]) (pre @ [p])" for e
    using subseq_order.trans [OF subseq_remove1 assms]
    by (simp add: list_emb_append_mono)
  show ?thesis
    using keep app rep
    by (simp add: dedupStep_def Let_def split: option.split)
qed

lemma foldl_dedupStep_subseq:
  "subseq (unique st) pre \<Longrightarrow> subseq (unique (foldl dedupStep st ps)) (pre @ ps)"
proof (induction ps arbitrary: st pre)
  case Nil
  then show ?case by simp
next
  case (Cons p ps)
  from Cons.IH [OF dedupStep_subseq [OF Cons.prems, of p]]
  show ?case by simp
qed

lemma unique_subseq: "subseq (unique (dedupLoop ps)) ps"
  using foldl_dedupStep_subseq [of dedupInit "[]" ps]
  by (simp add: dedupLoop_def dedupInit_def)

lemma calculateRelevance_withRelevance [simp]:
  "calculateRelevance (withRelevance item' p) item = calculateRelevance p item"
  by (simp add: calculateRelevance_def withRelevance_def)

lemma scoreOf_withRelevance [simp]:
  "scoreOf (withRelevance item p) = calculateRelevance p item"
  by (simp add: scoreOf_def withRelevance_def)

lemma ranked_elements:
  assumes "q \<in> set (deduplicateAndRankProducts ps item)"
  shows "\<exists>p \<in> set ps. q = withRelevance item p"
proof -
  from assms obtain p where "p \<in> set (unique (dedupLoop ps))" and q: "q = withRelevance item p"
    by (auto simp: deduplicateAndRankProducts_def)
  moreover have "set (unique (dedupLoop ps)) \<subseteq> set ps"
    using unique_subseq [of ps] by (auto elim: list_emb_set)
  ultimately show ?thesis by auto
qed

lemma ranked_score:
  "q \<in> set (deduplicateAndRankProducts ps item) \<Longrightarrow>
   scoreOf q = calculateRelevance q item"
  by (auto dest: ranked_elements)

lemma ranked_sorted_score:
  "sorted (map (\<lambda>p. - scoreOf p) (deduplicateAndRankProducts ps item))"
  unfolding deduplicateAndRankProducts_def by (rule sorted_sort_key)

lemma ranked_sorted:
  "sorted_wrt (\<lambda>a b. calculateRelevance b item \<le> calculateRelevance a item)
     (deduplicateAndRankProducts ps item)"
proof -
  have "sorted_wrt (\<lambda>a b. - scoreOf a \<le> - scoreOf b) (deduplicateAndRankProducts ps item)"
    using ranked_sorted_score [of ps item] by (simp add: sorted_map)
  then show ?thesis
    by (rule sorted_wrt_mono_rel [rotated]) (simp add: ranked_score)
qed





subsection \<open>Fusing a list that is already fused\<close>

lemma foldl_dedupStep_clean:
  assumes "dedupInv st"
    and "distinct (map url ps)" and "distinct (map titleKeyOf ps)"
    and "\<forall>q \<in> set ps. \<forall>r \<in> set (unique st). url q \<noteq> url r"
    and "\<forall>q \<in> set ps. \<forall>r \<in> set (unique st). titleKeyOf q \<noteq> titleKeyOf r"
  shows "unique (foldl dedupStep st ps) = unique st @ ps"
  using assms
proof (induction ps arbitrary: st)
  case Nil
  then show ?case by simp
next
  case (Cons p ps)
  from Cons.prems(1) have su: "seenUrls st = url ` set (unique st)"
    and st: "\<And>k q. seenTitles st k = Some q \<longleftrightarrow> (q \<in> set (unique st) \<and> titleKeyOf q = k)"
    by (simp_all add: dedupInv_def)
  have pu: "\<forall>r \<in> set (unique st). url p \<noteq> url r"
    and pk: "\<forall>r \<in> set (unique st). titleKeyOf p \<noteq> titleKeyOf r"
    using Cons.prems(4,5) by simp_all
  have unseen: "url p \<notin> seenUrls st"
    unfolding su using pu by blast
  have none: "seenTitles st (titleKeyOf p) = None"
  proof (cases "seenTitles st (titleKeyOf p)")
    case None
    then show ?thesis .
  next
    case (Some q)
    then have "q \<in> set (unique st)" and "titleKeyOf q = titleKeyOf p"
      using st by simp_all
    then show ?thesis using pk by fastforce
  qed
  let ?st' = "dedupStep st p"
  have step: "?st' = \<lparr>seenUrls = insert (url p) (seenUrls st),
                seenTitles = (seenTitles st)(titleKeyOf p \<mapsto> p),
                unique = unique st @ [p]\<rparr>"
    using unseen none by (rule dedupStep_new)
  have u': "unique ?st' = unique st @ [p]"
    by (simp add: step)
  have inv': "dedupInv ?st'"
    using Cons.prems(1) by (rule dedupInv_step)
  have a: "distinct (map url ps)" and b: "distinct (map titleKeyOf ps)"
    using Cons.prems(2,3) by simp_all
  have c1: "\<forall>q \<in> set ps. url q \<noteq> url p"
    using Cons.prems(2) by (simp add: image_iff) metis
  have c: "\<forall>q \<in> set ps. \<forall>r \<in> set (unique ?st'). url q \<noteq> url r"
    unfolding u' using Cons.prems(4) c1 by simp
  have d1: "\<forall>q \<in> set ps. titleKeyOf q \<noteq> titleKeyOf p"
    using Cons.prems(3) by (simp add: image_iff) metis
  have d: "\<forall>q \<in> set ps. \<forall>r \<in> set (unique ?st'). titleKeyOf q \<noteq> titleKeyOf r"
    unfolding u' using Cons.prems(5) d1 by simp
  have "unique (foldl dedupStep ?st' ps) = unique ?st' @ ps"
    using inv' a b c d by (rule Cons.IH)
  then show ?case by (simp add: u')
qed

lemma dedupLoop_clean:
  assumes "distinct (map url ps)" and "distinct (map titleKeyOf ps)"
  shows "unique (dedupLoop ps) = ps"
proof -
  have "unique (foldl dedupStep dedupInit ps) = unique dedupInit @ ps"
    using dedupInv_init assms by (rule foldl_dedupStep_clean) (simp_all add: dedupInit_def)
  then show ?thesis by (simp add: dedupLoop_def dedupInit_def)
qed

lemma withRelevance_idem:
  "withRelevance item (withRelevance item p) = withRelevance item p"
  by (simp add: withRelevance_def calculateRelevance_def)

lemma withRelevance_ranked:
  "map (withRelevance item) (deduplicateAndRankProducts ps item) = deduplicateAndRankProducts ps item"
proof (rule map_idI)
  fix q assume "q \<in> set (deduplicateAndRankProducts ps item)"
  then obtain p where "q = withRelevance item p"
    by (auto dest: ranked_elements)
  then show "withRelevance item q = q"
    by (simp add: withRelevance_idem)
qed

text \<open>
  Claim C4. Fusing the result of a fusion gives the same list again. This holds for every
  candidate list, so in particular for every list that is below any given cap.
\<close>

theorem fusion_idempotent:
  "deduplicateAndRankProducts (deduplicateAndRankProducts ps item) item
     = deduplicateAndRankProducts ps item"
proof -
  let ?out = "deduplicateAndRankProducts ps item"
  have "unique (dedupLoop ?out) = ?out"
    using ranked_urls_distinct ranked_keys_distinct by (rule dedupLoop_clean)
  then have "deduplicateAndRankProducts ?out item = sort_key (\<lambda>p. - scoreOf p) ?out"
    by (simp add: deduplicateAndRankProducts_def [of ?out] withRelevance_ranked)
  also have "\<dots> = ?out"
    using ranked_sorted_score by (rule sort_key_id_if_sorted)
  finally show ?thesis .
qed

subsection \<open>Source trust\<close>

lemma getSourceScore_cases:
  "getSourceScore s =
     (if s = ''gemini_web_search'' then 5
      else if s = ''google_lens'' then 4
      else if s = ''google_reverse'' then 3
      else if s = ''bing_reverse'' then 2
      else if s = ''gemini_web_search_fallback'' then 1
      else 0)"
  by (simp add: getSourceScore_def sourceScores_def)

lemma relevance_by_trust:
  "calculateRelevance p item =
     (if getSourceScore (source p) = 5 then 25
      else if getSourceScore (source p) = 4 then 20
      else if getSourceScore (source p) = 3 then 15
      else if getSourceScore (source p) = 2 then 10
      else if getSourceScore (source p) = 1 then 8
      else 0)
     + (if retailer p \<in> set preferredRetailers then 3 else 0)
     + (if price p \<noteq> [] \<and> price p \<noteq> ''Price not available'' then 2 else 0)
     + (if truthy (imageUrl p) then 1 else 0)"
  by (simp add: calculateRelevance_def getSourceScore_cases)

lemma getSourceScore_range: "0 \<le> getSourceScore s \<and> getSourceScore s \<le> 5"
  by (simp add: getSourceScore_cases)

lemma relevance_strict:
  assumes "getSourceScore (source b) < getSourceScore (source a)"
    and "retailer a = retailer b" and "price a = price b" and "imageUrl a = imageUrl b"
  shows "calculateRelevance b item < calculateRelevance a item"
proof -
  have "getSourceScore (source b) \<in> {0,1,2,3,4,5}" 
    using getSourceScore_range [of "source b"] by auto
  moreover have "getSourceScore (source a) \<in> {0,1,2,3,4,5}" 
    using getSourceScore_range [of "source a"] by auto
  ultimately show ?thesis
    using assms unfolding relevance_by_trust [of a] relevance_by_trust [of b]
    by auto
qed

lemma ranked_order:
  assumes i: "i < length (deduplicateAndRankProducts ps item)"
    and j: "j < length (deduplicateAndRankProducts ps item)"
    and less: "calculateRelevance (deduplicateAndRankProducts ps item ! j) item
                 < calculateRelevance (deduplicateAndRankProducts ps item ! i) item"
  shows "i < j"
proof (rule ccontr)
  assume "\<not> i < j"
  then consider "i = j" | "j < i" by linarith
  then show False
  proof cases
    case 1
    then show False using less by simp
  next
    case 2
    from sorted_wrt_nth_less [OF ranked_sorted 2 i]
    show False using less by simp
  qed
qed

text \<open>
  Claim C5. Of two candidates with the same retailer, price and image URL, the one whose
  source has the higher trust score gets the strictly higher relevance score, and wherever
  both stand in a fused list it stands before the other. The base score is 25, 20, 15, 10, 8
  for the sources of trust 5, 4, 3, 2, 1, to which 3 is added for a preferred retailer, 2 for
  a price that is present and not the sentinel, and 1 for an image URL.
\<close>

theorem source_trust_monotone:
  "(getSourceScore (source b) < getSourceScore (source a) \<and> retailer a = retailer b \<and>
    price a = price b \<and> imageUrl a = imageUrl b
      \<longrightarrow> calculateRelevance b item < calculateRelevance a item) \<and>
   (i < length (deduplicateAndRankProducts ps item) \<and>
    j < length (deduplicateAndRankProducts ps item) \<and>
    getSourceScore (source (deduplicateAndRankProducts ps item ! j))
      < getSourceScore (source (deduplicateAndRankProducts ps item ! i)) \<and>
    retailer (deduplicateAndRankProducts ps item ! i) = retailer (deduplicateAndRankProducts ps item ! j) \<and>
    price (deduplicateAndRankProducts ps item ! i) = price (deduplicateAndRankProducts ps item ! j) \<and>
    imageUrl (deduplicateAndRankProducts ps item ! i) = imageUrl (deduplicateAndRankProducts ps item ! j)
      \<longrightarrow> i < j) \<and>
   (1 \<le> getSourceScore (source p)
      \<longrightarrow> calculateRelevance p item =
            [8, 10, 15, 20, 25] ! nat (getSourceScore (source p) - 1)
            + (if retailer p \<in> set preferredRetailers then 3 else 0)
            + (if price p \<noteq> [] \<and> price p \<noteq> ''Price not available'' then 2 else 0)
            + (if truthy (imageUrl p) then 1 else 0))"
proof (intro conjI impI)
  assume "getSourceScore (source b) < getSourceScore (source a) \<and> retailer a = retailer b \<and>
    price a = price b \<and> imageUrl a = imageUrl b"
  then show "calculateRelevance b item < calculateRelevance a item"
    by (simp add: relevance_strict)
next
  let ?out = "deduplicateAndRankProducts ps item"
  assume h: "i < length ?out \<and> j < length ?out \<and>
    getSourceScore (source (?out ! j)) < getSourceScore (source (?out ! i)) \<and>
    retailer (?out ! i) = retailer (?out ! j) \<and>
    price (?out ! i) = price (?out ! j) \<and>
    imageUrl (?out ! i) = imageUrl (?out ! j)"
  then have "calculateRelevance (?out ! j) item < calculateRelevance (?out ! i) item"
    by (intro relevance_strict) simp_all
  with h show "i < j" by (intro ranked_order [of i ps item j]) simp_all
next
  assume "1 \<le> getSourceScore (source p)"
  moreover have "getSourceScore (source p) \<in> {0,1,2,3,4,5}" 
    using getSourceScore_range [of "source p"] by auto
  ultimately show "calculateRelevance p item =
            [8, 10, 15, 20, 25] ! nat (getSourceScore (source p) - 1)
            + (if retailer p \<in> set preferredRetailers then 3 else 0)
            + (if price p \<noteq> [] \<and> price p \<noteq> ''Price not available'' then 2 else 0)
            + (if truthy (imageUrl p) then 1 else 0)"
    unfolding relevance_by_trust [of p] by auto
qed

theorem source_trust_monotone_witness:
  "(getSourceScore (source lensCandidate) < getSourceScore (source (sampleCandidate 0)) \<and>
    retailer (sampleCandidate 0) = retailer lensCandidate \<and>
    price (sampleCandidate 0) = price lensCandidate \<and>
    imageUrl (sampleCandidate 0) = imageUrl lensCandidate) \<and>
   calculateRelevance lensCandidate sampleItem < calculateRelevance (sampleCandidate 0) sampleItem \<and>
   (getSourceScore (source (deduplicateAndRankProducts [lensCandidate, sampleCandidate 0] sampleItem ! 1))
      < getSourceScore (source (deduplicateAndRankProducts [lensCandidate, sampleCandidate 0] sampleItem ! 0))) \<and>
   (0::nat) < 1 \<and>
   1 \<le> getSourceScore (source (sampleCandidate 0)) \<and>
   calculateRelevance (sampleCandidate 0) sampleItem =
     [8, 10, 15, 20, 25] ! nat (getSourceScore (source (sampleCandidate 0)) - 1)
     + (if retailer (sampleCandidate 0) \<in> set preferredRetailers then 3 else 0)
     + (if price (sampleCandidate 0) \<noteq> [] \<and> price (sampleCandidate 0) \<noteq> ''Price not available''
        then 2 else 0)
     + (if truthy (imageUrl (sampleCandidate 0)) then 1 else 0)"
proof -
  let ?out = "deduplicateAndRankProducts [lensCandidate, sampleCandidate 0] sampleItem"
  have h1: "getSourceScore (source lensCandidate) < getSourceScore (source (sampleCandidate 0)) \<and>
    retailer (sampleCandidate 0) = retailer lensCandidate \<and>
    price (sampleCandidate 0) = price lensCandidate \<and>
    imageUrl (sampleCandidate 0) = imageUrl lensCandidate"
    by code_simp
  have h2: "0 < length ?out \<and> 1 < length ?out \<and>
    getSourceScore (source (?out ! 1)) < getSourceScore (source (?out ! 0)) \<and>
    retailer (?out ! 0) = retailer (?out ! 1) \<and>
    price (?out ! 0) = price (?out ! 1) \<and>
    imageUrl (?out ! 0) = imageUrl (?out ! 1)"
    by code_simp
  have h3: "1 \<le> getSourceScore (source (sampleCandidate 0))"
    by code_simp
  note t = source_trust_monotone [where a = "sampleCandidate 0" and b = lensCandidate
      and item = sampleItem and ps = "[lensCandidate, sampleCandidate 0]"
      and i = 0 and j = 1 and p = "sampleCandidate 0"]
  from t h1 have c1: "calculateRelevance lensCandidate sampleItem
      < calculateRelevance (sampleCandidate 0) sampleItem"
    by blast
  from t h2 have c2: "(0::nat) < 1"
    by blast
  from t h3 have c3: "calculateRelevance (sampleCandidate 0) sampleItem =
     [8, 10, 15, 20, 25] ! nat (getSourceScore (source (sampleCandidate 0)) - 1)
     + (if retailer (sampleCandidate 0) \<in> set preferredRetailers then 3 else 0)
     + (if price (sampleCandidate 0) \<noteq> [] \<and> price (sampleCandidate 0) \<noteq> ''Price not available''
        then 2 else 0)
     + (if truthy (imageUrl (sampleCandidate 0)) then 1 else 0)"
    by blast
  show ?thesis using h1 h2 h3 c1 c2 c3 by blast
qed

subsection \<open>The matcher\<close>

lemma searchWithGeminiWebSearch_calls:
  "snd (searchWithGeminiWebSearch svc env item calls)
     = calls @ snd (searchWithGeminiWebSearch svc env item [])"
  "fst (searchWithGeminiWebSearch svc env item calls)
     = fst (searchWithGeminiWebSearch svc env item [])"
  by (simp_all add: searchWithGeminiWebSearch_def split: option.split)

lemma searchWithGeminiWebSearch_own_calls:
  "set (snd (searchWithGeminiWebSearch svc env item [])) \<subseteq> {AxiosGet item, GenerateContent item}"
  by (simp add: searchWithGeminiWebSearch_def split: option.split)

lemma searchByImage_returns:
  "\<exists>found. fst (searchByImage svc env item calls) = Returned found"
  by (simp add: searchByImage_def split: prod.split)

lemma searchByImage_calls:
  "snd (searchByImage svc env item calls) = calls @ snd (searchByImage svc env item [])"
  "fst (searchByImage svc env item calls) = fst (searchByImage svc env item [])"
  using searchWithGeminiWebSearch_calls [of svc env item calls]
  by (auto simp: searchByImage_def split: prod.split)

lemma searchByImage_own_calls:
  "set (snd (searchByImage svc env item [])) \<subseteq> {AxiosGet item, GenerateContent item}"
  using searchWithGeminiWebSearch_own_calls [of svc env item]
  by (auto simp: searchByImage_def split: prod.split)

lemma searchItem_no_image:
  assumes "\<not> truthy (extractedImageUrl item)"
  shows "searchItem svc env item calls =
           (\<lparr>itemId = id' item,
             pieceType' = pieceType item,
             extractedImageUrl' = extractedImageUrl item,
             products = [],
             searchMethod = ''no_image_available'',
             confidence' = confidence item,
             totalResults = 0\<rparr>, calls)"
  using assms by (simp add: searchItem_def)

lemma searchItem_image:
  assumes "truthy (extractedImageUrl item)"
    and "fst (searchByImage svc env item calls) = Returned found"
  shows "searchItem svc env item calls =
           (\<lparr>itemId = id' item,
             pieceType' = pieceType item,
             extractedImageUrl' = extractedImageUrl item,
             products = found,
             searchMethod = (if found \<noteq> [] then ''gemini_web_search'' else ''no_image_available''),
             confidence' = confidence item,
             totalResults = length found\<rparr>, snd (searchByImage svc env item calls))"
  using assms by (cases "searchByImage svc env item calls") (simp add: searchItem_def)

lemma searchItem_calls:
  "snd (searchItem svc env item calls) = calls @ snd (searchItem svc env item [])"
  "fst (searchItem svc env item calls) = fst (searchItem svc env item [])"
proof -
  show "snd (searchItem svc env item calls) = calls @ snd (searchItem svc env item [])"
  proof (cases "truthy (extractedImageUrl item)")
    case False
    then show ?thesis by (simp add: searchItem_no_image)
  next
    case True
    obtain f where f: "fst (searchByImage svc env item calls) = Returned f"
      using searchByImage_returns by blast
    then have f0: "fst (searchByImage svc env item []) = Returned f"
      using searchByImage_calls(2) [of svc env item calls] by simp
    show ?thesis
      using searchByImage_calls(1) [of svc env item calls]
      by (simp add: searchItem_image [OF True f] searchItem_image [OF True f0])
  qed
  show "fst (searchItem svc env item calls) = fst (searchItem svc env item [])"
  proof (cases "truthy (extractedImageUrl item)")
    case False
    then show ?thesis by (simp add: searchItem_no_image)
  next
    case True
    obtain f where f: "fst (searchByImage svc env item calls) = Returned f"
      using searchByImage_returns by blast
    then have f0: "fst (searchByImage svc env item []) = Returned f"
      using searchByImage_calls(2) [of svc env item calls] by simp
    show ?thesis
      by (simp add: searchItem_image [OF True f] searchItem_image [OF True f0])
  qed
qed

lemma searchItem_own_calls:
  "set (snd (searchItem svc env item [])) \<subseteq> {AxiosGet item, GenerateContent item}"
proof (cases "truthy (extractedImageUrl item)")
  case False
  then show ?thesis by (simp add: searchItem_no_image)
next
  case True
  obtain f where f: "fst (searchByImage svc env item []) = Returned f"
    using searchByImage_returns by blast
  show ?thesis
    using searchByImage_own_calls [of svc env item]
    by (simp add: searchItem_image [OF True f])
qed

lemma searchItem_label:
  "searchMethod (fst (searchItem svc env item calls)) =
     (if truthy (extractedImageUrl item) \<and> products (fst (searchItem svc env item calls)) \<noteq> []
      then ''gemini_web_search'' else ''no_image_available'')"
proof (cases "truthy (extractedImageUrl item)")
  case False
  then show ?thesis by (simp add: searchItem_no_image)
next
  case True
  obtain f where f: "fst (searchByImage svc env item calls) = Returned f"
    using searchByImage_returns by blast
  show ?thesis
    by (simp add: searchItem_image [OF True f] True)
qed

lemma searchItem_fields:
  "itemId (fst (searchItem svc env item calls)) = id' item"
  "extractedImageUrl' (fst (searchItem svc env item calls)) = extractedImageUrl item"
proof -
  obtain f where f: "fst (searchByImage svc env item calls) = Returned f"
    using searchByImage_returns by blast
  show "itemId (fst (searchItem svc env item calls)) = id' item"
    by (cases "truthy (extractedImageUrl item)")
       (simp_all add: searchItem_image [OF _ f] searchItem_no_image)
  show "extractedImageUrl' (fst (searchItem svc env item calls)) = extractedImageUrl item"
    by (cases "truthy (extractedImageUrl item)")
       (simp_all add: searchItem_image [OF _ f] searchItem_no_image)
qed

lemma searchLoop_eq:
  "searchLoop svc env items (results, calls) =
     (results @ map (\<lambda>item. fst (searchItem svc env item [])) items,
      calls @ concat (map (\<lambda>item. snd (searchItem svc env item [])) items))"
proof (induction items arbitrary: results calls)
  case Nil
  then show ?case by simp
next
  case (Cons item rest)
  obtain r c where rc: "searchItem svc env item calls = (r, c)"
    by (cases "searchItem svc env item calls")
  have r: "r = fst (searchItem svc env item [])"
    using searchItem_calls(2) [of svc env item calls] rc by simp
  have c: "c = calls @ snd (searchItem svc env item [])"
    using searchItem_calls(1) [of svc env item calls] rc by simp
  show ?case
    by (simp add: rc Cons.IH) (simp add: r c)
qed

lemma search_results:
  "fst (searchProductsForExtractedItems svc env items)
     = map (\<lambda>item. fst (searchItem svc env item [])) items"
  by (simp add: searchProductsForExtractedItems_def searchLoop_eq)

lemma search_calls:
  "snd (searchProductsForExtractedItems svc env items)
     = concat (map (\<lambda>item. snd (searchItem svc env item [])) items)"
  by (simp add: searchProductsForExtractedItems_def searchLoop_eq)

lemma search_calls_with_image:
  assumes "c \<in> set (snd (searchProductsForExtractedItems svc env items))"
  shows "\<exists>item \<in> set items. truthy (extractedImageUrl item) \<and>
           (c = AxiosGet item \<or> c = GenerateContent item)"
proof -
  from assms obtain item where it: "item \<in> set items"
    and c: "c \<in> set (snd (searchItem svc env item []))"
    by (auto simp: search_calls)
  have "truthy (extractedImageUrl item)"
    using c by (cases "truthy (extractedImageUrl item)") (simp_all add: searchItem_no_image)
  moreover have "c = AxiosGet item \<or> c = GenerateContent item"
    using c searchItem_own_calls [of svc env item] by auto
  ultimately show ?thesis using it by blast
qed

text \<open>
  Claim C6. An item without an extracted image gets an empty product list and the search
  method \<open>no_image_available\<close>, and no request is made for it.
\<close>

theorem no_image_no_search:
  assumes "i < length items" and "\<not> truthy (extractedImageUrl (items ! i))"
  shows "itemId (fst (searchProductsForExtractedItems svc env items) ! i) = id' (items ! i) \<and>
         products (fst (searchProductsForExtractedItems svc env items) ! i) = [] \<and>
         searchMethod (fst (searchProductsForExtractedItems svc env items) ! i) = ''no_image_available'' \<and>
         AxiosGet (items ! i) \<notin> set (snd (searchProductsForExtractedItems svc env items)) \<and>
         GenerateContent (items ! i) \<notin> set (snd (searchProductsForExtractedItems svc env items))"
proof -
  have r: "fst (searchProductsForExtractedItems svc env items) ! i
             = fst (searchItem svc env (items ! i) [])"
    using assms(1) by (simp add: search_results)
  have nocall: "c \<notin> set (snd (searchProductsForExtractedItems svc env items))"
    if "c = AxiosGet (items ! i) \<or> c = GenerateContent (items ! i)" for c
  proof
    assume "c \<in> set (snd (searchProductsForExtractedItems svc env items))"
    then obtain item where "truthy (extractedImageUrl item)"
      and "c = AxiosGet item \<or> c = GenerateContent item"
      using search_calls_with_image by blast
    with that assms(2) show False by auto
  qed
  show ?thesis
    using nocall by (simp add: r searchItem_no_image [OF assms(2)])
qed

theorem no_image_no_search_witness:
  "(0::nat) < length [sampleItem, imageItem] \<and>
   \<not> truthy (extractedImageUrl ([sampleItem, imageItem] ! 0)) \<and>
   products (fst (searchProductsForExtractedItems sampleSearchService sampleSearchEnv
                    [sampleItem, imageItem]) ! 0) = [] \<and>
   searchMethod (fst (searchProductsForExtractedItems sampleSearchService sampleSearchEnv
                    [sampleItem, imageItem]) ! 0) = ''no_image_available'' \<and>
   AxiosGet sampleItem \<notin> set (snd (searchProductsForExtractedItems sampleSearchService
                    sampleSearchEnv [sampleItem, imageItem]))"
proof -
  have h1: "(0::nat) < length [sampleItem, imageItem]"
    by simp
  have h2: "\<not> truthy (extractedImageUrl ([sampleItem, imageItem] ! 0))"
    by (simp add: sampleItem_def truthy_def)
  from no_image_no_search [OF h1 h2, of sampleSearchService sampleSearchEnv]
  show ?thesis using h1 h2 by simp
qed

text \<open>
  Claim C10. In every result of the matcher the search method is \<open>gemini_web_search\<close>
  exactly when the item has an extracted image and at least one product was found; in every
  other case, also for an item that has an image but no product, it is
  \<open>no_image_available\<close>. (\<open>searchByImage\<close> catches whatever is thrown inside it, so no
  result of the matcher comes from its \<open>catch\<close>.)
\<close>

theorem search_method_label:
  assumes "i < length items"
  shows "extractedImageUrl' (fst (searchProductsForExtractedItems svc env items) ! i)
           = extractedImageUrl (items ! i) \<and>
         (searchMethod (fst (searchProductsForExtractedItems svc env items) ! i) = ''gemini_web_search''
            \<longleftrightarrow> truthy (extractedImageUrl (items ! i)) \<and>
                products (fst (searchProductsForExtractedItems svc env items) ! i) \<noteq> []) \<and>
         (truthy (extractedImageUrl (items ! i)) \<and>
          products (fst (searchProductsForExtractedItems svc env items) ! i) = []
            \<longrightarrow> searchMethod (fst (searchProductsForExtractedItems svc env items) ! i)
                  = ''no_image_available'') \<and>
         (\<not> truthy (extractedImageUrl (items ! i))
            \<longrightarrow> searchMethod (fst (searchProductsForExtractedItems svc env items) ! i)
                  = ''no_image_available'')"
proof -
  have r: "fst (searchProductsForExtractedItems svc env items) ! i
             = fst (searchItem svc env (items ! i) [])"
    using assms by (simp add: search_results)
  show ?thesis
    unfolding r
    using searchItem_label [of svc env "items ! i" "[]"]
    by (simp add: searchItem_fields)
qed


theorem search_method_label_witness:
  "(0::nat) < length [imageItem, sampleItem] \<and> (1::nat) < length [imageItem, sampleItem] \<and>
   truthy (extractedImageUrl ([imageItem, sampleItem] ! 0)) \<and>
   \<not> truthy (extractedImageUrl ([imageItem, sampleItem] ! 1)) \<and>
   products (fst (searchProductsForExtractedItems sampleSearchService emptySearchEnv
                    [imageItem, sampleItem]) ! 0) = [] \<and>
   searchMethod (fst (searchProductsForExtractedItems sampleSearchService emptySearchEnv
                    [imageItem, sampleItem]) ! 0) = ''no_image_available'' \<and>
   searchMethod (fst (searchProductsForExtractedItems sampleSearchService emptySearchEnv
                    [imageItem, sampleItem]) ! 1) = ''no_image_available'' \<and>
   products (fst (searchProductsForExtractedItems sampleSearchService sampleSearchEnv
                    [imageItem, sampleItem]) ! 0) \<noteq> [] \<and>
   searchMethod (fst (searchProductsForExtractedItems sampleSearchService sampleSearchEnv
                    [imageItem, sampleItem]) ! 0) = ''gemini_web_search''"
proof -
  have h0: "(0::nat) < length [imageItem, sampleItem]"
    by simp
  have h1: "(1::nat) < length [imageItem, sampleItem]"
    by simp
  have h2: "truthy (extractedImageUrl ([imageItem, sampleItem] ! 0)) \<and>
   products (fst (searchProductsForExtractedItems sampleSearchService emptySearchEnv
                    [imageItem, sampleItem]) ! 0) = []"
    by code_simp
  have h3: "\<not> truthy (extractedImageUrl ([imageItem, sampleItem] ! 1))"
    by code_simp
  have h4: "products (fst (searchProductsForExtractedItems sampleSearchService sampleSearchEnv
                    [imageItem, sampleItem]) ! 0) \<noteq> []"
    by code_simp
  from search_method_label [OF h0, of sampleSearchService emptySearchEnv]
    search_method_label [OF h1, of sampleSearchService emptySearchEnv]
    search_method_label [OF h0, of sampleSearchService sampleSearchEnv]
  show ?thesis using h0 h1 h2 h3 h4 by blast
qed

subsection \<open>Removing duplicates\<close>










subsection \<open>The keyword scan\<close>











subsection \<open>Extraction without a backend\<close>

text \<open>
  Claim C8. When the generative backend is not configured, extraction fails with the error
  \<open>Gemini API not configured\<close> for every image reference: it returns no items and does not
  fall back.
\<close>

theorem extraction_not_configured:
  "genAI svc = None \<or> model svc = None \<Longrightarrow>
   extractIndividualItems svc env flatLayImageUrl = Inl (Error ''Gemini API not configured'')"
  by (simp add: extractIndividualItems_def)

theorem extraction_not_configured_witness:
  "(genAI (newItemExtractionService None) = None \<or> model (newItemExtractionService None) = None) \<and>
   extractIndividualItems (newItemExtractionService None) dressEnv ''https://cdn.example/flatlay.png''
     = Inl (Error ''Gemini API not configured'')"
proof -
  have h: "genAI (newItemExtractionService None) = None \<or> model (newItemExtractionService None) = None"
    by (simp add: newItemExtractionService_def truthy_def)
  from extraction_not_configured [OF h] h show ?thesis by blast
qed

subsection \<open>Identifiers\<close>

lemma length_mapIndexed [simp]: "length (mapIndexed f k xs) = length xs"
  by (induction xs arbitrary: k) simp_all










end
